theory Spec2Isabelle
  imports Main "HOL-Library.Sublist"
begin

section \<open>Text\<close>

text \<open>
  The program works on Python \<open>str\<close> values. They are modelled as \<^typ>\<open>string\<close>, one
  \<^typ>\<open>char\<close> per code point; the model therefore covers text whose code points lie
  below 256. On that range the definitions below are the ones of Python:
  \<open>str.isspace\<close> holds for the code points 9-13, 28-32, 133 and 160, and
  \<open>str.lower\<close> maps A-Z and the upper-case letters 192-222 (without the
  multiplication sign 215) to the code point 32 above.
\<close>

definition isspace :: "char \<Rightarrow> bool" where
  "isspace c =
     (let n = (of_char c :: nat)
      in (9 \<le> n \<and> n \<le> 13) \<or> (28 \<le> n \<and> n \<le> 32) \<or> n = 133 \<or> n = 160)"

definition lower_char :: "char \<Rightarrow> char" where
  "lower_char c =
     (let n = (of_char c :: nat)
      in if (65 \<le> n \<and> n \<le> 90) \<or> (192 \<le> n \<and> n \<le> 222 \<and> n \<noteq> 215)
         then char_of (n + 32) else c)"

definition lower :: "string \<Rightarrow> string" where
  "lower s = map lower_char s"

text \<open>
  \<open>s.strip()\<close> and \<open>s.strip(chars)\<close>: the longest run of characters of the given
  kind is removed at the left end, then at the right end.
\<close>

definition strip_while :: "(char \<Rightarrow> bool) \<Rightarrow> string \<Rightarrow> string" where
  "strip_while P s = rev (dropWhile P (rev (dropWhile P s)))"

definition strip :: "string \<Rightarrow> string" where
  "strip s = strip_while isspace s"

definition strip_chars :: "string \<Rightarrow> string \<Rightarrow> string" where
  "strip_chars chars s = strip_while (\<lambda>c. c \<in> set chars) s"

text \<open>\<open>s.startswith(p)\<close> is \<^const>\<open>prefix\<close>, \<open>s.endswith(p)\<close> is \<^const>\<open>suffix\<close> and
  \<open>p in s\<close> is \<^const>\<open>sublist\<close> (a contiguous occurrence).\<close>

definition startswith :: "string \<Rightarrow> string \<Rightarrow> bool" where
  "startswith s p = prefix p s"

definition endswith :: "string \<Rightarrow> string \<Rightarrow> bool" where
  "endswith s p = suffix p s"

definition contains :: "string \<Rightarrow> string \<Rightarrow> bool" where
  "contains s p = sublist p s"

text \<open>
  \<open>s.replace(old, new)\<close>: every occurrence of \<open>old\<close>, found from the left and without
  overlap, is replaced. (For an empty \<open>old\<close> Python puts \<open>new\<close> before every character
  and at the end.)
\<close>

function replace :: "string \<Rightarrow> string \<Rightarrow> string \<Rightarrow> string" where
  "replace [] new s = new @ concat (map (\<lambda>c. c # new) s)"
| "replace (a # old) new [] = []"
| "replace (a # old) new (c # s) =
     (if prefix (a # old) (c # s) then new @ replace (a # old) new (drop (length old) s)
      else c # replace (a # old) new s)"
  by pat_completeness auto
termination
  by (relation "measure (\<lambda>(old, new, s). length s)") auto

text \<open>The two quote characters, as one-character strings.\<close>

definition dq :: string where
  "dq = [CHR 0x22]"

definition sq :: string where
  "sq = [CHR 0x27]"

text \<open>Truthiness of an optional string: \<open>None\<close> and \<open>''\<close> are false.\<close>

fun truthy :: "string option \<Rightarrow> bool" where
  "truthy None = False"
| "truthy (Some s) = (s \<noteq> [])"

section \<open>The environment of a run\<close>

text \<open>
  What the program asks of the operating system and of its libraries is a parameter of
  the model: the result of the two look-ups of the ffmpeg binary, the functions of
  \<open>os.path\<close>, the file URI of \<open>pathlib\<close> and the content of files.
  \<^item> \<open>bundled_ffmpeg\<close> is the value of \<open>imageio_ffmpeg.get_ffmpeg_exe()\<close>, or \<open>None\<close>
    when the import or the call raises;
  \<^item> \<open>system_ffmpeg\<close> is the value of \<open>shutil.which('ffmpeg')\<close>, or \<open>None\<close> when nothing
    is found or the call raises;
  \<^item> \<open>uri_path p\<close> is the percent-quoted path that \<open>pathlib.Path(p).as_uri()\<close> puts after
    \<open>file://\<close>, or \<open>None\<close> when \<open>p\<close> is not absolute and \<open>as_uri\<close> raises ValueError;
  \<^item> \<open>read_text p\<close> is the result of opening \<open>p\<close> for reading with encoding UTF-8 and
    reading all of it.
\<close>

datatype read_failure = IO_failure | Decode_failure

record env =
  bundled_ffmpeg :: "string option"
  system_ffmpeg :: "string option"
  os_name :: string
  isfile :: "string \<Rightarrow> bool"
  path_exists :: "string \<Rightarrow> bool"
  abspath :: "string \<Rightarrow> string"
  dirname :: "string \<Rightarrow> string"
  basename :: "string \<Rightarrow> string"
  path_join :: "string \<Rightarrow> string \<Rightarrow> string"
  uri_path :: "string \<Rightarrow> string option"
  read_text :: "string \<Rightarrow> read_failure + string"

definition as_uri :: "env \<Rightarrow> string \<Rightarrow> string option" where
  "as_uri e p = map_option (\<lambda>q. ''file://'' @ q) (uri_path e p)"

section \<open>get_ffmpeg_path\<close>

definition get_ffmpeg_path :: "env \<Rightarrow> string option" where
  "get_ffmpeg_path e =
     (case bundled_ffmpeg e of
        Some ffmpeg_path \<Rightarrow> Some ffmpeg_path
      | None \<Rightarrow>
          (if truthy (system_ffmpeg e) then system_ffmpeg e else None))"

section \<open>validate_and_prepare_url\<close>

datatype error = ValueError string

definition cleaned_input :: "string \<Rightarrow> string" where
  \<comment> \<open>\<open>user_input.strip().strip('"').strip("'")\<close>\<close>
  "cleaned_input user_input = strip_chars sq (strip_chars dq (strip user_input))"

definition validate_and_prepare_url :: "env \<Rightarrow> string \<Rightarrow> error + string" where
  "validate_and_prepare_url e user_input =
     (if user_input = [] then Inl (ValueError ''Input cannot be empty'')
      else if cleaned_input user_input = []
      then Inl (ValueError ''Input cannot be empty after cleaning'')
      else if isfile e (cleaned_input user_input)
      then (case as_uri e (abspath e (cleaned_input user_input)) of
              None \<Rightarrow> Inl (ValueError ''relative path can't be expressed as a file URI'')
            | Some file_uri \<Rightarrow> Inr file_uri)
      else Inr (cleaned_input user_input))"

section \<open>main: the output filename\<close>

definition output_name :: "string \<Rightarrow> string" where
  "output_name line =
     (let name = (if strip line = [] then ''output.mp4'' else strip line)
      in if \<not> endswith (lower name) ''.mp4'' then name @ ''.mp4'' else name)"

section \<open>Regular expressions\<close>

text \<open>
  The five patterns of the program use literal characters, a negated one-character class,
  \<open>?\<close>, \<open>*\<close>, \<open>+\<close> and one capturing group, and are all compiled with
  \<open>re.IGNORECASE\<close>. A pattern is a list of nodes. The matcher is the backtracking one of
  Python: a greedy repetition first tries to take one more character and only then the
  rest of the pattern, \<open>?\<close> first tries to take its character. The state of the group is
  a pair: whether the group is open, and the text it has captured.
\<close>

datatype atom = Lit char | Not char

datatype node = One atom | Opt atom | Star atom | Plus atom | Group_open | Group_close

fun atom_ok :: "atom \<Rightarrow> char \<Rightarrow> bool" where
  "atom_ok (Lit l) c = (lower_char c = lower_char l)"
| "atom_ok (Not x) c = (lower_char c \<noteq> lower_char x)"

fun capture :: "char \<Rightarrow> bool \<times> string \<Rightarrow> bool \<times> string" where
  "capture c (recording, g) = (recording, if recording then g @ [c] else g)"

fun re_match :: "node list \<Rightarrow> string \<Rightarrow> bool \<times> string \<Rightarrow> string option" where
  "re_match [] s st = Some (snd st)"
| "re_match (Group_open # ps) s st = re_match ps s (True, [])"
| "re_match (Group_close # ps) s st = re_match ps s (False, snd st)"
| "re_match (One a # ps) [] st = None"
| "re_match (One a # ps) (c # s) st =
     (if atom_ok a c then re_match ps s (capture c st) else None)"
| "re_match (Opt a # ps) [] st = re_match ps [] st"
| "re_match (Opt a # ps) (c # s) st =
     (if atom_ok a c
      then (case re_match ps s (capture c st) of
              Some g \<Rightarrow> Some g
            | None \<Rightarrow> re_match ps (c # s) st)
      else re_match ps (c # s) st)"
| "re_match (Star a # ps) [] st = re_match ps [] st"
| "re_match (Star a # ps) (c # s) st =
     (if atom_ok a c
      then (case re_match (Star a # ps) s (capture c st) of
              Some g \<Rightarrow> Some g
            | None \<Rightarrow> re_match ps (c # s) st)
      else re_match ps (c # s) st)"
| "re_match (Plus a # ps) [] st = None"
| "re_match (Plus a # ps) (c # s) st =
     (if atom_ok a c then re_match (Star a # ps) s (capture c st) else None)"

text \<open>\<open>re.search(pattern, s, re.IGNORECASE)\<close>, reduced to what the program reads of the
  match object: whether there is a match, and \<open>group(1)\<close> of the leftmost one.\<close>

fun re_search :: "node list \<Rightarrow> string \<Rightarrow> string option" where
  "re_search p [] = re_match p [] (False, [])"
| "re_search p (c # s) =
     (case re_match p (c # s) (False, []) of
        Some g \<Rightarrow> Some g
      | None \<Rightarrow> re_search p s)"

definition lits :: "string \<Rightarrow> node list" where
  "lits s = map (\<lambda>c. One (Lit c)) s"

definition base_url_pattern :: "node list" where
  \<comment> \<open>\<open><BaseURL[^>]*>(https?://[^<]+)</BaseURL>\<close>\<close>
  "base_url_pattern =
     lits ''<BaseURL'' @ [Star (Not CHR ''>'')] @ lits ''>'' @
     [Group_open] @ lits ''http'' @ [Opt (Lit CHR ''s'')] @ lits ''://'' @
     [Plus (Not CHR ''<''), Group_close] @ lits ''</BaseURL>''"

definition attribute_pattern :: "string \<Rightarrow> node list" where
  \<comment> \<open>\<open>name="(https?://[^"]+)"\<close>\<close>
  "attribute_pattern name =
     lits name @ lits ''='' @ lits dq @
     [Group_open] @ lits ''http'' @ [Opt (Lit CHR ''s'')] @ lits ''://'' @
     [Plus (Not (CHR 0x22)), Group_close] @ lits dq"

definition segment_url_pattern :: "node list" where
  \<comment> \<open>\<open><SegmentURL[^>]*>(https?://[^<]+)</SegmentURL>\<close>\<close>
  "segment_url_pattern =
     lits ''<SegmentURL'' @ [Star (Not CHR ''>'')] @ lits ''>'' @
     [Group_open] @ lits ''http'' @ [Opt (Lit CHR ''s'')] @ lits ''://'' @
     [Plus (Not CHR ''<''), Group_close] @ lits ''</SegmentURL>''"

definition media_patterns :: "node list list" where
  "media_patterns =
     [attribute_pattern ''media'', attribute_pattern ''initialization'',
      attribute_pattern ''sourceURL'', segment_url_pattern]"

section \<open>main: inspecting the manifest\<close>

definition has_remote_urls :: "string \<Rightarrow> bool" where
  "has_remote_urls mpd_content =
     (contains mpd_content ''http://'' \<or> contains mpd_content ''https://'')"

text \<open>The loop over \<open>media_patterns\<close>: the first match of a pattern is stripped; it is taken
  and the loop left unless it contains \<open>w3.org\<close>, in which case the next pattern is tried.\<close>

fun first_media_url :: "node list list \<Rightarrow> string \<Rightarrow> string option" where
  "first_media_url [] mpd_content = None"
| "first_media_url (pattern # patterns) mpd_content =
     (case re_search pattern mpd_content of
        Some g \<Rightarrow>
          (if \<not> contains (strip g) ''w3.org'' then Some (strip g)
           else first_media_url patterns mpd_content)
      | None \<Rightarrow> first_media_url patterns mpd_content)"

text \<open>The URL handed to the downloader; \<open>None\<close> is the return after "Could not extract a
  valid media URL from MPD".\<close>

definition remote_url :: "string \<Rightarrow> string option" where
  "remote_url mpd_content =
     (case re_search base_url_pattern mpd_content of
        Some g \<Rightarrow> Some (strip g)
      | None \<Rightarrow>
          (if truthy (first_media_url media_patterns mpd_content)
           then first_media_url media_patterns mpd_content else None))"

section \<open>main: what a run does\<close>

text \<open>
  The options dictionary handed to the downloader (its two callbacks left out); a key that
  the program sets only sometimes is an option.
\<close>

record ydl_opts =
  format :: string
  merge_output_format :: string
  outtmpl :: string
  quiet :: bool
  no_warnings :: bool
  enable_file_urls :: bool
  verbose :: bool
  http_headers :: "(string \<times> string) list option"
  ffmpeg_location :: "string option"

text \<open>
  A run is described by what it does to the outside, in order, and by how it ends.
  \<^item> \<open>Listdir d\<close>: the diagnostic listing of directory \<open>d\<close> (a failure of it is only
    printed);
  \<^item> \<open>Exists p\<close>: the test \<open>os.path.exists(p)\<close>;
  \<^item> \<open>Read_manifest p\<close>: the attempt to open and read \<open>p\<close>;
  \<^item> \<open>Could_not_read f\<close>: the warning "Could not read MPD file";
  \<^item> \<open>Download urls opts\<close>: the call \<open>YoutubeDL(opts).download(urls)\<close>;
  \<^item> \<open>Popen cmd cwd\<close>: the subprocess started with command line \<open>cmd\<close> in directory \<open>cwd\<close>.
  The downloader and the subprocess are not part of the program: a run that reaches one
  of them ends with \<open>Downloader_called\<close> or \<open>Ffmpeg_called\<close>, and their own result only
  selects the last message printed. What the program prints is left out, and so is the
  size of the manifest, which is asked for only to be printed. The environment is the
  same for the whole run: no file appears or disappears while it lasts.
\<close>

datatype event =
    Listdir string
  | Exists string
  | Read_manifest string
  | Could_not_read read_failure
  | Download "string list" ydl_opts
  | Popen "string list" string

datatype status =
    Input_error error
  | Uncaught error
  | Ffmpeg_required
  | Manifest_missing string
  | No_media_url
  | Downloader_called
  | Ffmpeg_called

type_synonym run = "event list \<times> status"

text \<open>The path taken back from the file URI (twice in \<open>main\<close>), and the Windows
  correction applied to it in the local branch.\<close>

definition uri_to_path :: "string \<Rightarrow> string" where
  "uri_to_path url = replace ''file://'' [] (replace ''file:///'' [] url)"

definition local_path :: "env \<Rightarrow> string \<Rightarrow> string" where
  "local_path e url =
     (if os_name e = ''nt'' \<and> startswith (uri_to_path url) ''/''
      then drop 1 (uri_to_path url) else uri_to_path url)"

definition mpd_dir :: "env \<Rightarrow> string \<Rightarrow> string" where
  "mpd_dir e url = dirname e (abspath e (local_path e url))"

definition mpd_filename :: "env \<Rightarrow> string \<Rightarrow> string" where
  "mpd_filename e url = basename e (local_path e url)"

definition mpd_full_path :: "env \<Rightarrow> string \<Rightarrow> string" where
  "mpd_full_path e url = path_join e (mpd_dir e url) (mpd_filename e url)"

definition ffmpeg_cmd :: "env \<Rightarrow> string \<Rightarrow> string \<Rightarrow> string \<Rightarrow> string list" where
  "ffmpeg_cmd e ffmpeg_path url out =
     [ffmpeg_path,
      ''-protocol_whitelist'', ''file,http,https,tcp,tls,crypto'',
      ''-allowed_extensions'', ''ALL'',
      ''-i'', mpd_filename e url,
      ''-c'', ''copy'',
      ''-y'',
      abspath e out]"

text \<open>The local branch once ffmpeg is known: the manifest is looked for, read and
  inspected; then either the downloader or ffmpeg is started, or the run ends.\<close>

definition process_local_mpd ::
  "env \<Rightarrow> string \<Rightarrow> string \<Rightarrow> string \<Rightarrow> ydl_opts \<Rightarrow> run" where
  "process_local_mpd e ffmpeg_path url out opts =
     (let looked = [Listdir (mpd_dir e url), Exists (mpd_full_path e url)];
          opened = looked @ [Read_manifest (mpd_full_path e url)];
          ffmpeg = Popen (ffmpeg_cmd e ffmpeg_path url out) (mpd_dir e url)
      in if \<not> path_exists e (mpd_full_path e url)
         then (looked, Manifest_missing (mpd_full_path e url))
         else (case read_text e (mpd_full_path e url) of
                 Inl failure \<Rightarrow> (opened @ [Could_not_read failure, ffmpeg], Ffmpeg_called)
               | Inr mpd_content \<Rightarrow>
                   (if has_remote_urls mpd_content
                    then (case remote_url mpd_content of
                            None \<Rightarrow> (opened, No_media_url)
                          | Some u \<Rightarrow> (opened @ [Download [u] opts], Downloader_called))
                    else (opened @ [ffmpeg], Ffmpeg_called))))"

text \<open>The choice between the two ways of downloading (from "Use different methods for
  local files vs URLs" to the end of \<open>main\<close>).\<close>

definition is_local_file :: "string \<Rightarrow> bool" where
  "is_local_file url = startswith url ''file://''"

definition start_download ::
  "env \<Rightarrow> string option \<Rightarrow> string \<Rightarrow> string \<Rightarrow> ydl_opts \<Rightarrow> run" where
  "start_download e ffmpeg_path url out opts =
     (if is_local_file url
      then (case ffmpeg_path of
              None \<Rightarrow> ([], Ffmpeg_required)
            | Some p \<Rightarrow>
                (if p = [] then ([], Ffmpeg_required)
                 else process_local_mpd e p url out opts))
      else ([Download [url] opts], Downloader_called))"

text \<open>The options: the fixed ones, the Referer header of a local manifest (its
  \<open>as_uri\<close> raises ValueError on a relative directory, which nothing catches), and the
  location of ffmpeg when it is known.\<close>

definition base_opts :: "string \<Rightarrow> ydl_opts" where
  "base_opts out =
     \<lparr>format = ''bestvideo+bestaudio/best'', merge_output_format = ''mp4'', outtmpl = out,
      quiet = True, no_warnings = False, enable_file_urls = True, verbose = False,
      http_headers = None, ffmpeg_location = None\<rparr>"

definition with_referer :: "env \<Rightarrow> string \<Rightarrow> ydl_opts \<Rightarrow> error + ydl_opts" where
  "with_referer e url opts =
     (if startswith url ''file://''
      then (case as_uri e (dirname e (uri_to_path url)) of
              None \<Rightarrow> Inl (ValueError ''relative path can't be expressed as a file URI'')
            | Some base_dir_uri \<Rightarrow>
                Inr (opts\<lparr>http_headers := Some [(''Referer'', base_dir_uri @ ''/'')]\<rparr>))
      else Inr opts)"

definition with_ffmpeg :: "string option \<Rightarrow> ydl_opts \<Rightarrow> ydl_opts" where
  "with_ffmpeg ffmpeg_path opts =
     (if truthy ffmpeg_path then opts\<lparr>ffmpeg_location := ffmpeg_path\<rparr> else opts)"

text \<open>\<open>main\<close>, given the environment and the two lines typed by the user.\<close>

definition main :: "env \<Rightarrow> string \<Rightarrow> string \<Rightarrow> run" where
  "main e line1 line2 =
     (case validate_and_prepare_url e line1 of
        Inl err \<Rightarrow> ([], Input_error err)
      | Inr url \<Rightarrow>
          (case with_referer e url (base_opts (output_name line2)) of
             Inl err \<Rightarrow> ([], Uncaught err)
           | Inr opts \<Rightarrow>
               start_download e (get_ffmpeg_path e) url (output_name line2)
                 (with_ffmpeg (get_ffmpeg_path e) opts)))"

section \<open>Notions of the specification\<close>

text \<open>
  The specification speaks of trimming "surrounding whitespace and quote characters".
  Read by its words this removes, at both ends, every character that is whitespace or a
  quote; \<open>trim_surrounding\<close> is that reading, to be compared with \<^const>\<open>cleaned_input\<close>.
\<close>

definition trim_surrounding :: "string \<Rightarrow> string" where
  "trim_surrounding s = strip_while (\<lambda>c. isspace c \<or> c \<in> set dq \<or> c \<in> set sq) s"

text \<open>A name ends in \<open>.mp4\<close> "in any letter case" when it ends in one of the four
  spellings of that suffix.\<close>

definition mp4_spellings :: "string list" where
  "mp4_spellings = [''.mp4'', ''.mP4'', ''.Mp4'', ''.MP4'']"

definition ends_in_mp4_any_case :: "string \<Rightarrow> bool" where
  "ends_in_mp4_any_case name = (\<exists>e \<in> set mp4_spellings. suffix e name)"

text \<open>A match of pattern \<open>p\<close> starts at position \<open>k\<close> of \<open>s\<close>.\<close>

definition matches_at :: "node list \<Rightarrow> string \<Rightarrow> nat \<Rightarrow> bool" where
  "matches_at p s k = (re_match p (drop k s) (False, []) \<noteq> None)"

section \<open>An example environment\<close>

text \<open>
  A Windows machine whose drive C holds the directories \<open>C:\v\<close> and \<open>C:\w\<close>, the second
  being the working directory, and one manifest, \<open>C:\v\a.mpd\<close>. On the plain paths of
  this example (on drive C, without relative parts or characters that a URI quotes) the functions
  below are those of \<open>ntpath\<close> and \<open>pathlib\<close>: both separators are accepted,
  \<open>abspath\<close> answers with backslashes, and the file URI of \<open>C:\v\<close> is \<open>file:///C:/v\<close>.
  \<open>win\<close> writes a path with backslashes: \<open>win ''C:/v''\<close> is \<open>C:\v\<close>. The result of
  reading the manifest and the ffmpeg found on the system are parameters.
\<close>

definition win :: "string \<Rightarrow> string" where
  "win p = map (\<lambda>c. if c = CHR ''/'' then CHR 0x5C else c) p"

definition unwin :: "string \<Rightarrow> string" where
  "unwin p = map (\<lambda>c. if c = CHR 0x5C then CHR ''/'' else c) p"

definition is_sep :: "char \<Rightarrow> bool" where
  "is_sep c = (c = CHR ''/'' \<or> c = CHR 0x5C)"

definition windows_env :: "read_failure + string \<Rightarrow> string option \<Rightarrow> env" where
  "windows_env manifest ffmpeg =
     \<lparr>bundled_ffmpeg = None, system_ffmpeg = ffmpeg, os_name = ''nt'',
      isfile = (\<lambda>p. win p = win ''C:/v/a.mpd''),
      path_exists = (\<lambda>p. win p \<in> set [win ''C:/v/a.mpd'', win ''C:/v'', win ''C:/w'']),
      abspath = (\<lambda>p. if take 2 p = ''C:'' then win p else win ''C:/w/'' @ win p),
      dirname = (\<lambda>p. rev (drop 1 (dropWhile (\<lambda>c. \<not> is_sep c) (rev p)))),
      basename = (\<lambda>p. rev (takeWhile (\<lambda>c. \<not> is_sep c) (rev p))),
      path_join = (\<lambda>d f. d @ win ''/'' @ f),
      uri_path = (\<lambda>p. if take 2 p = ''C:'' then Some (''/'' @ unwin p) else None),
      read_text = (\<lambda>p. if win p = win ''C:/v/a.mpd'' then manifest else Inl IO_failure)\<rparr>"

text \<open>
  The same on a POSIX machine: the directories \<open>/v\<close> and \<open>/w\<close>, the second being the
  working directory, and the manifest \<open>/v/a.mpd\<close>; the functions are those of
  \<open>posixpath\<close> on the plain paths of the example.
\<close>

definition posix_env :: "read_failure + string \<Rightarrow> string option \<Rightarrow> env" where
  "posix_env manifest ffmpeg =
     \<lparr>bundled_ffmpeg = None, system_ffmpeg = ffmpeg, os_name = ''posix'',
      isfile = (\<lambda>p. p = ''/v/a.mpd''),
      path_exists = (\<lambda>p. p \<in> set [''/v/a.mpd'', ''/v'', ''/w'']),
      abspath = (\<lambda>p. if take 1 p = ''/'' then p else ''/w/'' @ p),
      dirname = (\<lambda>p. rev (drop 1 (dropWhile (\<lambda>c. c \<noteq> CHR ''/'') (rev p)))),
      basename = (\<lambda>p. rev (takeWhile (\<lambda>c. c \<noteq> CHR ''/'') (rev p))),
      path_join = (\<lambda>d f. d @ ''/'' @ f),
      uri_path = (\<lambda>p. if take 1 p = ''/'' then Some p else None),
      read_text = (\<lambda>p. if p = ''/v/a.mpd'' then manifest else Inl IO_failure)\<rparr>"

section \<open>Properties: text\<close>

lemma lower_char_of:
  "(of_char (lower_char c) :: nat) =
     (if (65 \<le> (of_char c :: nat) \<and> (of_char c :: nat) \<le> 90) \<or>
         (192 \<le> (of_char c :: nat) \<and> (of_char c :: nat) \<le> 222 \<and> (of_char c :: nat) \<noteq> 215)
      then of_char c + 32 else of_char c)"
  by (simp add: lower_char_def Let_def)

lemma lower_char_eq_iff:
  "lower_char c = d \<longleftrightarrow> (of_char (lower_char c) :: nat) = of_char d"
  by (simp only: of_char_eq_iff)

lemma lower_char_dot: "lower_char c = CHR ''.'' \<longleftrightarrow> c = CHR ''.''"
proof -
  have "lower_char c = CHR ''.'' \<longleftrightarrow> (of_char c :: nat) = of_char (CHR ''.'')"
    unfolding lower_char_eq_iff lower_char_of by auto
  then show ?thesis by (simp only: of_char_eq_iff)
qed

lemma lower_char_4: "lower_char c = CHR ''4'' \<longleftrightarrow> c = CHR ''4''"
proof -
  have "lower_char c = CHR ''4'' \<longleftrightarrow> (of_char c :: nat) = of_char (CHR ''4'')"
    unfolding lower_char_eq_iff lower_char_of by auto
  then show ?thesis by (simp only: of_char_eq_iff)
qed

lemma lower_char_m: "lower_char c = CHR ''m'' \<longleftrightarrow> c = CHR ''m'' \<or> c = CHR ''M''"
proof -
  have "lower_char c = CHR ''m'' \<longleftrightarrow>
        (of_char c :: nat) = of_char (CHR ''m'') \<or> (of_char c :: nat) = of_char (CHR ''M'')"
    unfolding lower_char_eq_iff lower_char_of by auto
  then show ?thesis by (simp only: of_char_eq_iff)
qed

lemma lower_char_p: "lower_char c = CHR ''p'' \<longleftrightarrow> c = CHR ''p'' \<or> c = CHR ''P''"
proof -
  have "lower_char c = CHR ''p'' \<longleftrightarrow>
        (of_char c :: nat) = of_char (CHR ''p'') \<or> (of_char c :: nat) = of_char (CHR ''P'')"
    unfolding lower_char_eq_iff lower_char_of by auto
  then show ?thesis by (simp only: of_char_eq_iff)
qed

lemma map_lower_mp4:
  "map lower_char e = ''.mp4'' \<longleftrightarrow> e \<in> set mp4_spellings"
proof
  assume "map lower_char e = ''.mp4''"
  then obtain a b c d where e: "e = [a, b, c, d]"
    and "lower_char a = CHR ''.''" "lower_char b = CHR ''m''"
        "lower_char c = CHR ''p''" "lower_char d = CHR ''4''"
    by (auto simp: map_eq_Cons_conv)
  then have "a = CHR ''.''" "b = CHR ''m'' \<or> b = CHR ''M''"
       "c = CHR ''p'' \<or> c = CHR ''P''" "d = CHR ''4''"
    by (simp_all only: lower_char_dot lower_char_m lower_char_p lower_char_4)
  with e show "e \<in> set mp4_spellings"
    by (auto simp: mp4_spellings_def)
next
  assume "e \<in> set mp4_spellings"
  then show "map lower_char e = ''.mp4''"
    by (auto simp: mp4_spellings_def lower_char_dot lower_char_m lower_char_p lower_char_4)
qed

lemma endswith_lower_mp4:
  "endswith (lower name) ''.mp4'' \<longleftrightarrow> ends_in_mp4_any_case name"
proof
  assume "endswith (lower name) ''.mp4''"
  then obtain zs where "map lower_char name = zs @ ''.mp4''"
    by (auto simp: endswith_def lower_def suffix_def)
  then obtain us e where "name = us @ e" "map lower_char e = ''.mp4''"
    unfolding map_eq_append_conv by metis
  then show "ends_in_mp4_any_case name"
    unfolding ends_in_mp4_any_case_def map_lower_mp4 by (auto simp: suffix_def)
next
  assume "ends_in_mp4_any_case name"
  then obtain e zs where "e \<in> set mp4_spellings" "name = zs @ e"
    by (auto simp: ends_in_mp4_any_case_def suffix_def)
  then have "map lower_char name = map lower_char zs @ ''.mp4''"
    using map_lower_mp4 [of e] by simp
  then show "endswith (lower name) ''.mp4''"
    by (simp add: endswith_def lower_def suffix_def)
qed

lemma not_ends_in_mp4_Nil: "\<not> ends_in_mp4_any_case []"
  by (simp add: ends_in_mp4_any_case_def mp4_spellings_def)

section \<open>Properties: the output filename\<close>

text \<open>
  Claim C7. The output filename is the typed line without surrounding whitespace, unless
  nothing is left, in which case it is \<open>output.mp4\<close>. A name that does not end in \<open>.mp4\<close>,
  in whatever letter case, gets \<open>.mp4\<close> appended; a name that does is kept as it is.
\<close>

theorem output_name_normalization:
  "(strip line = [] \<longrightarrow> output_name line = ''output.mp4'') \<and>
   (strip line \<noteq> [] \<and> \<not> ends_in_mp4_any_case (strip line) \<longrightarrow>
      output_name line = strip line @ ''.mp4'') \<and>
   (ends_in_mp4_any_case (strip line) \<longrightarrow> output_name line = strip line)"
proof -
  have "endswith (lower ''output.mp4'') ''.mp4''"
    unfolding endswith_lower_mp4 by (simp add: ends_in_mp4_any_case_def mp4_spellings_def suffix_def)
  then show ?thesis
    using not_ends_in_mp4_Nil by (auto simp: output_name_def Let_def endswith_lower_mp4)
qed

text \<open>The examples of the specification: the empty and the blank line, \<open>video\<close> and
  \<open>clip.MP4\<close>.\<close>

theorem output_name_normalization_witness:
  "strip [] = [] \<and> output_name [] = ''output.mp4'' \<and>
   strip ''  '' = [] \<and> output_name ''  '' = ''output.mp4'' \<and>
   strip ''video'' \<noteq> [] \<and> \<not> ends_in_mp4_any_case (strip ''video'') \<and>
     output_name ''video'' = ''video.mp4'' \<and>
   ends_in_mp4_any_case (strip ''clip.MP4'') \<and> output_name ''clip.MP4'' = ''clip.MP4''"
proof -
  have e: "strip [] = []" "strip ''  '' = []" "strip ''video'' = ''video''"
    "strip ''clip.MP4'' = ''clip.MP4''"
    by (simp_all add: strip_def strip_while_def isspace_def)
  have v: "\<not> ends_in_mp4_any_case ''video''"
    by (simp add: ends_in_mp4_any_case_def mp4_spellings_def suffix_to_prefix)
  have c: "ends_in_mp4_any_case ''clip.MP4''"
    by (simp add: ends_in_mp4_any_case_def mp4_spellings_def suffix_to_prefix)
  show ?thesis
    using output_name_normalization [of "[]"] output_name_normalization [of "''  ''"]
      output_name_normalization [of "''video''"] output_name_normalization [of "''clip.MP4''"]
      e v c
    by simp
qed

section \<open>Properties: cleaning the input\<close>

lemmas text_defs =
  cleaned_input_def strip_def strip_chars_def strip_while_def isspace_def sq_def dq_def

text \<open>Stripping leaves nothing exactly when every character is of the stripped kind, and
  it removes only characters of that kind. So whatever the program's cleaning empties is
  made of whitespace and quotes only; the converse fails, as shown below.\<close>

lemma strip_while_Nil_iff: "strip_while P s = [] \<longleftrightarrow> (\<forall>c \<in> set s. P c)"
proof -
  have "strip_while P s = [] \<longleftrightarrow> (\<forall>c \<in> set (dropWhile P s). P c)"
    by (simp add: strip_while_def dropWhile_eq_Nil_conv)
  also have "\<dots> \<longleftrightarrow> dropWhile P s = []"
  proof
    assume all: "\<forall>c \<in> set (dropWhile P s). P c"
    show "dropWhile P s = []"
    proof (rule ccontr)
      assume ne: "dropWhile P s \<noteq> []"
      then have "\<not> P (hd (dropWhile P s))" by (rule hd_dropWhile)
      moreover from ne have "hd (dropWhile P s) \<in> set (dropWhile P s)" by simp
      ultimately show False using all by blast
    qed
  qed (auto dest: set_dropWhileD)
  also have "\<dots> \<longleftrightarrow> (\<forall>c \<in> set s. P c)"
    by (simp add: dropWhile_eq_Nil_conv)
  finally show ?thesis .
qed

lemma set_strip_while: "set s \<subseteq> set (strip_while P s) \<union> {c. P c}"
proof -
  let ?t = "dropWhile P s"
  have "set s = set (takeWhile P s) \<union> set ?t"
    by (metis set_append takeWhile_dropWhile_id)
  moreover have "set ?t = set (takeWhile P (rev ?t)) \<union> set (dropWhile P (rev ?t))"
    by (metis set_append set_rev takeWhile_dropWhile_id)
  moreover have "set (takeWhile P xs) \<subseteq> {c. P c}" for xs
    by (auto dest: set_takeWhileD)
  ultimately show ?thesis
    by (auto simp: strip_while_def)
qed

lemma rejected_inputs_are_blank:
  assumes "cleaned_input s = []"
  shows "trim_surrounding s = []"
proof -
  let ?a = "strip s" and ?b = "strip_chars dq (strip s)"
  from assms have "\<forall>c \<in> set ?b. c \<in> set sq"
    by (simp add: cleaned_input_def strip_chars_def strip_while_Nil_iff)
  moreover have "set ?a \<subseteq> set ?b \<union> {c. c \<in> set dq}"
    unfolding strip_chars_def by (rule set_strip_while)
  moreover have "set s \<subseteq> set ?a \<union> {c. isspace c}"
    unfolding strip_def by (rule set_strip_while)
  ultimately have "\<forall>c \<in> set s. isspace c \<or> c \<in> set dq \<or> c \<in> set sq"
    by blast
  then show ?thesis
    by (simp add: trim_surrounding_def strip_while_Nil_iff)
qed

text \<open>
  Claim C9. The input is cleaned in one pass of three steps in a fixed order: whitespace
  is stripped, then double quotes, then single quotes. The pass is not repeated. So
  whitespace inside single quotes stays (\<open>'  x  '\<close> gives \<open>x\<close> with two blanks on each
  side, which is what the program then takes as its URL), and of the nesting
  \<open>'"'x'"'\<close> only the outer single quotes go: the inner quotes stay, and a second pass
  would still remove more.
\<close>

theorem cleaning_is_one_pass:
  "(\<forall>s. cleaned_input s = strip_chars sq (strip_chars dq (strip s))) \<and>
   cleaned_input (sq @ ''  x  '' @ sq) = ''  x  '' \<and>
   strip (cleaned_input (sq @ ''  x  '' @ sq)) = ''x'' \<and>
   cleaned_input (sq @ dq @ sq @ ''x'' @ sq @ dq @ sq) = dq @ sq @ ''x'' @ sq @ dq \<and>
   cleaned_input (cleaned_input (sq @ dq @ sq @ ''x'' @ sq @ dq @ sq)) = ''x'' \<and>
   validate_and_prepare_url (windows_env (Inl IO_failure) None) (sq @ ''  x  '' @ sq)
     = Inr ''  x  ''"
proof -
  have 1: "cleaned_input (sq @ ''  x  '' @ sq) = ''  x  ''"
    by (simp add: text_defs)
  have 2: "strip ''  x  '' = ''x''"
    by (simp add: text_defs)
  have 3: "cleaned_input (sq @ dq @ sq @ ''x'' @ sq @ dq @ sq) = dq @ sq @ ''x'' @ sq @ dq"
    by (simp add: text_defs)
  have 4: "cleaned_input (dq @ sq @ ''x'' @ sq @ dq) = ''x''"
    by (simp add: text_defs)
  have 5: "validate_and_prepare_url (windows_env (Inl IO_failure) None) (sq @ ''  x  '' @ sq)
     = Inr ''  x  ''"
    unfolding validate_and_prepare_url_def 1 by (simp add: windows_env_def win_def sq_def)
  show ?thesis
    by (simp only: 1 2 3 4 5) (simp add: cleaned_input_def)
qed

text \<open>
  Claim C8, as stated, does not hold: a blank in single quotes is made of whitespace and
  quote characters only, and trimming those at both ends leaves nothing, yet the program
  takes the blank as its URL.
\<close>

theorem quoted_blank_counterexample:
  "trim_surrounding (sq @ '' '' @ sq) = [] \<and>
   validate_and_prepare_url (windows_env (Inl IO_failure) None) (sq @ '' '' @ sq) = Inr '' ''"
proof -
  have 1: "cleaned_input (sq @ '' '' @ sq) = '' ''"
    by (simp add: text_defs)
  have 2: "trim_surrounding (sq @ '' '' @ sq) = []"
    by (simp add: trim_surrounding_def text_defs)
  have 3: "validate_and_prepare_url (windows_env (Inl IO_failure) None) (sq @ '' '' @ sq)
     = Inr '' ''"
    unfolding validate_and_prepare_url_def 1 by (simp add: windows_env_def win_def sq_def)
  from 2 3 show ?thesis by simp
qed

text \<open>
  Claim C8, amended. An input that is empty, or that the one pass of cleaning (whitespace,
  then double quotes, then single quotes) leaves empty, is rejected with a ValueError.
  Every such input is one that trimming whitespace and quotes would empty as well.
\<close>

theorem empty_after_cleaning_rejected:
  "cleaned_input s = [] \<Longrightarrow>
     validate_and_prepare_url e s =
       Inl (ValueError (if s = [] then ''Input cannot be empty''
                        else ''Input cannot be empty after cleaning'')) \<and>
     trim_surrounding s = []"
  by (simp add: validate_and_prepare_url_def rejected_inputs_are_blank)

text \<open>The three inputs named by the specification: the empty string, three blanks and
  two double quotes.\<close>

theorem empty_after_cleaning_rejected_witness:
  "cleaned_input [] = [] \<and>
   validate_and_prepare_url (windows_env (Inl IO_failure) None) []
     = Inl (ValueError ''Input cannot be empty'') \<and>
   cleaned_input ''   '' = [] \<and>
   validate_and_prepare_url (windows_env (Inl IO_failure) None) ''   ''
     = Inl (ValueError ''Input cannot be empty after cleaning'') \<and>
   cleaned_input (dq @ dq) = [] \<and>
   validate_and_prepare_url (windows_env (Inl IO_failure) None) (dq @ dq)
     = Inl (ValueError ''Input cannot be empty after cleaning'')"
proof -
  have 1: "cleaned_input [] = []" by (simp add: text_defs)
  have 2: "cleaned_input ''   '' = []" by (simp add: text_defs)
  have 3: "cleaned_input (dq @ dq) = []" by (simp add: text_defs)
  have 4: "dq @ dq \<noteq> []" by (simp add: dq_def)
  show ?thesis
    using empty_after_cleaning_rejected [OF 1, of "windows_env (Inl IO_failure) None"]
      empty_after_cleaning_rejected [OF 2, of "windows_env (Inl IO_failure) None"]
      empty_after_cleaning_rejected [OF 3, of "windows_env (Inl IO_failure) None"]
      1 2 3 4
    by simp
qed

section \<open>Properties: the whole run\<close>

text \<open>
  After the input is accepted, \<open>main\<close> is \<open>start_download\<close> on the options it has built.
  For a URL that starts with \<open>file://\<close> this holds when the directory taken from the
  URL has a file URI, which becomes the Referer header; when it has none (a relative
  directory), the run ends there with the ValueError of \<open>as_uri\<close>.
\<close>

lemma main_remote:
  assumes "validate_and_prepare_url e line1 = Inr url" and "\<not> is_local_file url"
  shows "main e line1 line2 =
           start_download e (get_ffmpeg_path e) url (output_name line2)
             (with_ffmpeg (get_ffmpeg_path e) (base_opts (output_name line2)))"
  using assms by (simp add: main_def with_referer_def is_local_file_def)

lemma main_local:
  assumes "validate_and_prepare_url e line1 = Inr url" and "is_local_file url"
    and "uri_path e (dirname e (uri_to_path url)) = Some q"
  shows "main e line1 line2 =
           start_download e (get_ffmpeg_path e) url (output_name line2)
             (with_ffmpeg (get_ffmpeg_path e)
                ((base_opts (output_name line2))
                   \<lparr>http_headers := Some [(''Referer'', ''file://'' @ q @ ''/'')]\<rparr>))"
  using assms by (simp add: main_def with_referer_def is_local_file_def as_uri_def)

lemma main_local_relative:
  assumes "validate_and_prepare_url e line1 = Inr url" and "is_local_file url"
    and "uri_path e (dirname e (uri_to_path url)) = None"
  shows "main e line1 line2 =
           ([], Uncaught (ValueError ''relative path can't be expressed as a file URI''))"
  using assms by (simp add: main_def with_referer_def is_local_file_def as_uri_def)

text \<open>
  The second case is the one of every local file on a POSIX machine: removing
  \<open>file:///\<close> from the URI takes the leading slash of the path with it, so the directory
  is relative.
\<close>

lemma main_posix_local_file:
  "validate_and_prepare_url (posix_env (Inr ''<MPD/>'') (Some ''/usr/bin/ffmpeg'')) ''/v/a.mpd''
     = Inr ''file:///v/a.mpd'' \<and>
   uri_to_path ''file:///v/a.mpd'' = ''v/a.mpd'' \<and>
   main (posix_env (Inr ''<MPD/>'') (Some ''/usr/bin/ffmpeg'')) ''/v/a.mpd'' ''out''
     = ([], Uncaught (ValueError ''relative path can't be expressed as a file URI''))"
  by code_simp

section \<open>Properties: the choice between downloader and ffmpeg\<close>

text \<open>
  Claim C6. When no ffmpeg is found, a local manifest (a URL that starts with \<open>file://\<close>)
  ends the run with "FFmpeg is required" before anything is listed, read or downloaded.
  A remote URL goes to the downloader whatever the result of the search for ffmpeg.
\<close>

theorem ffmpeg_required_for_local_only:
  assumes "\<not> truthy (get_ffmpeg_path e)"
  shows "(is_local_file url \<longrightarrow>
            start_download e (get_ffmpeg_path e) url out opts = ([], Ffmpeg_required)) \<and>
         (\<not> is_local_file url \<longrightarrow>
            (\<forall>ffmpeg_path. start_download e ffmpeg_path url out opts
                = ([Download [url] opts], Downloader_called)))"
  using assms by (cases "get_ffmpeg_path e") (simp_all add: start_download_def)

theorem ffmpeg_required_for_local_only_witness:
  "\<not> truthy (get_ffmpeg_path (windows_env (Inr ''<MPD/>'') None)) \<and>
   is_local_file ''file:///C:/v/a.mpd'' \<and>
   start_download (windows_env (Inr ''<MPD/>'') None)
       (get_ffmpeg_path (windows_env (Inr ''<MPD/>'') None))
       ''file:///C:/v/a.mpd'' ''out.mp4'' (base_opts ''out.mp4'')
     = ([], Ffmpeg_required) \<and>
   \<not> is_local_file ''https://example.com/a.mpd'' \<and>
   start_download (windows_env (Inr ''<MPD/>'') None) None
       ''https://example.com/a.mpd'' ''out.mp4'' (base_opts ''out.mp4'')
     = ([Download [''https://example.com/a.mpd''] (base_opts ''out.mp4'')], Downloader_called)"
proof -
  have 1: "\<not> truthy (get_ffmpeg_path (windows_env (Inr ''<MPD/>'') None))"
    by (simp add: get_ffmpeg_path_def windows_env_def)
  have 2: "is_local_file ''file:///C:/v/a.mpd''"
    by (simp add: is_local_file_def startswith_def)
  have 3: "\<not> is_local_file ''https://example.com/a.mpd''"
    by (simp add: is_local_file_def startswith_def)
  show ?thesis
    using ffmpeg_required_for_local_only [OF 1, of "''file:///C:/v/a.mpd''"]
      ffmpeg_required_for_local_only [OF 1, of "''https://example.com/a.mpd''"] 1 2 3
    by blast
qed

text \<open>
  Claim C5. A local manifest that exists, is read, and contains neither \<open>http://\<close> nor
  \<open>https://\<close> goes to ffmpeg, whatever else it contains: the subprocess is started in the
  directory of the manifest, with the name of the manifest as input and the absolute
  path of the output file as last argument. Nothing is downloaded.
\<close>

theorem manifest_without_urls_goes_to_ffmpeg:
  assumes "is_local_file url" and "ffmpeg_path \<noteq> []"
    and "path_exists e (mpd_full_path e url)"
    and "read_text e (mpd_full_path e url) = Inr mpd_content"
    and "\<not> contains mpd_content ''http://''" and "\<not> contains mpd_content ''https://''"
  shows "start_download e (Some ffmpeg_path) url out opts =
           ([Listdir (mpd_dir e url),
             Exists (mpd_full_path e url),
             Read_manifest (mpd_full_path e url),
             Popen [ffmpeg_path,
                    ''-protocol_whitelist'', ''file,http,https,tcp,tls,crypto'',
                    ''-allowed_extensions'', ''ALL'',
                    ''-i'', mpd_filename e url,
                    ''-c'', ''copy'',
                    ''-y'',
                    abspath e out]
               (mpd_dir e url)],
            Ffmpeg_called)"
  using assms
  by (simp add: start_download_def process_local_mpd_def has_remote_urls_def ffmpeg_cmd_def)

text \<open>A manifest with a relative segment reference, not even well-formed.\<close>

theorem manifest_without_urls_goes_to_ffmpeg_witness:
  \<open>is_local_file ''file:///C:/v/a.mpd'' \<and> ''ffmpeg.exe'' \<noteq> [] \<and>
   path_exists (windows_env (Inr ''<MPD><S media="seg-1.m4s"></MPD>'') None)
     (mpd_full_path (windows_env (Inr ''<MPD><S media="seg-1.m4s"></MPD>'') None)
        ''file:///C:/v/a.mpd'') \<and>
   read_text (windows_env (Inr ''<MPD><S media="seg-1.m4s"></MPD>'') None)
     (mpd_full_path (windows_env (Inr ''<MPD><S media="seg-1.m4s"></MPD>'') None)
        ''file:///C:/v/a.mpd'') = Inr ''<MPD><S media="seg-1.m4s"></MPD>'' \<and>
   \<not> contains ''<MPD><S media="seg-1.m4s"></MPD>'' ''http://'' \<and>
   \<not> contains ''<MPD><S media="seg-1.m4s"></MPD>'' ''https://'' \<and>
   start_download (windows_env (Inr ''<MPD><S media="seg-1.m4s"></MPD>'') None)
       (Some ''ffmpeg.exe'') ''file:///C:/v/a.mpd'' ''out.mp4'' (base_opts ''out.mp4'')
     = ([Listdir (win ''C:/v''), Exists (win ''C:/v/a.mpd''), Read_manifest (win ''C:/v/a.mpd''),
         Popen [''ffmpeg.exe'', ''-protocol_whitelist'', ''file,http,https,tcp,tls,crypto'',
                ''-allowed_extensions'', ''ALL'', ''-i'', ''a.mpd'', ''-c'', ''copy'', ''-y'',
                win ''C:/w/out.mp4'']
           (win ''C:/v'')],
        Ffmpeg_called)\<close>
proof -
  let ?m = \<open>''<MPD><S media="seg-1.m4s"></MPD>''\<close>
  let ?e = "windows_env (Inr ?m) None"
  have p: "mpd_full_path ?e ''file:///C:/v/a.mpd'' = win ''C:/v/a.mpd''"
    "mpd_dir ?e ''file:///C:/v/a.mpd'' = win ''C:/v''"
    "mpd_filename ?e ''file:///C:/v/a.mpd'' = ''a.mpd''"
    "abspath ?e ''out.mp4'' = win ''C:/w/out.mp4''"
    by code_simp+
  have 1: "is_local_file ''file:///C:/v/a.mpd''" by code_simp
  have 2: "''ffmpeg.exe'' \<noteq> []" by simp
  have 3: "path_exists ?e (mpd_full_path ?e ''file:///C:/v/a.mpd'')" by code_simp
  have 4: "read_text ?e (mpd_full_path ?e ''file:///C:/v/a.mpd'') = Inr ?m" by code_simp
  have 5: "\<not> contains ?m ''http://''" by code_simp
  have 6: "\<not> contains ?m ''https://''" by code_simp
  show ?thesis
    using manifest_without_urls_goes_to_ffmpeg
      [OF 1 2 3 4 5 6, of "''out.mp4''" "base_opts ''out.mp4''"] 1 2 3 4 5 6
    by (simp only: p) simp
qed

text \<open>
  Claim C1, as stated, does not hold: in the example environment the manifest exists but
  cannot be decoded; the run warns and then starts ffmpeg on it.
\<close>

theorem undecodable_manifest_counterexample:
  "validate_and_prepare_url (windows_env (Inl Decode_failure) (Some ''ffmpeg.exe''))
       (win ''C:/v/a.mpd'') = Inr ''file:///C:/v/a.mpd'' \<and>
   read_text (windows_env (Inl Decode_failure) (Some ''ffmpeg.exe'')) (win ''C:/v/a.mpd'')
     = Inl Decode_failure \<and>
   main (windows_env (Inl Decode_failure) (Some ''ffmpeg.exe'')) (win ''C:/v/a.mpd'') ''out'' =
     ([Listdir (win ''C:/v''), Exists (win ''C:/v/a.mpd''), Read_manifest (win ''C:/v/a.mpd''),
       Could_not_read Decode_failure,
       Popen [''ffmpeg.exe'', ''-protocol_whitelist'', ''file,http,https,tcp,tls,crypto'',
              ''-allowed_extensions'', ''ALL'', ''-i'', ''a.mpd'', ''-c'', ''copy'', ''-y'',
              win ''C:/w/out.mp4'']
         (win ''C:/v'')],
      Ffmpeg_called)"
  by code_simp

text \<open>
  Claim C1, amended. Only a manifest that does not exist ends the run at this point. A
  manifest that exists but cannot be read or decoded is reported with a warning, and the
  run goes on to start ffmpeg on it, in the manifest's directory.
\<close>

theorem unreadable_manifest_goes_to_ffmpeg:
  assumes "is_local_file url" and "ffmpeg_path \<noteq> []"
  shows "(\<not> path_exists e (mpd_full_path e url) \<longrightarrow>
            start_download e (Some ffmpeg_path) url out opts =
              ([Listdir (mpd_dir e url), Exists (mpd_full_path e url)],
               Manifest_missing (mpd_full_path e url))) \<and>
         (path_exists e (mpd_full_path e url) \<and>
          read_text e (mpd_full_path e url) = Inl failure \<longrightarrow>
            start_download e (Some ffmpeg_path) url out opts =
              ([Listdir (mpd_dir e url),
                Exists (mpd_full_path e url),
                Read_manifest (mpd_full_path e url),
                Could_not_read failure,
                Popen (ffmpeg_cmd e ffmpeg_path url out) (mpd_dir e url)],
               Ffmpeg_called))"
  using assms by (simp add: start_download_def process_local_mpd_def)

theorem unreadable_manifest_goes_to_ffmpeg_witness:
  "is_local_file ''file:///C:/v/a.mpd'' \<and> is_local_file ''file:///C:/v/b.mpd'' \<and>
   ''ffmpeg.exe'' \<noteq> [] \<and>
   \<not> path_exists (windows_env (Inl Decode_failure) None)
       (mpd_full_path (windows_env (Inl Decode_failure) None) ''file:///C:/v/b.mpd'') \<and>
   start_download (windows_env (Inl Decode_failure) None) (Some ''ffmpeg.exe'')
       ''file:///C:/v/b.mpd'' ''out.mp4'' (base_opts ''out.mp4'')
     = ([Listdir (win ''C:/v''), Exists (win ''C:/v/b.mpd'')],
        Manifest_missing (win ''C:/v/b.mpd'')) \<and>
   path_exists (windows_env (Inl Decode_failure) None)
       (mpd_full_path (windows_env (Inl Decode_failure) None) ''file:///C:/v/a.mpd'') \<and>
   read_text (windows_env (Inl Decode_failure) None)
       (mpd_full_path (windows_env (Inl Decode_failure) None) ''file:///C:/v/a.mpd'')
     = Inl Decode_failure \<and>
   start_download (windows_env (Inl Decode_failure) None) (Some ''ffmpeg.exe'')
       ''file:///C:/v/a.mpd'' ''out.mp4'' (base_opts ''out.mp4'')
     = ([Listdir (win ''C:/v''), Exists (win ''C:/v/a.mpd''), Read_manifest (win ''C:/v/a.mpd''),
         Could_not_read Decode_failure,
         Popen [''ffmpeg.exe'', ''-protocol_whitelist'', ''file,http,https,tcp,tls,crypto'',
                ''-allowed_extensions'', ''ALL'', ''-i'', ''a.mpd'', ''-c'', ''copy'', ''-y'',
                win ''C:/w/out.mp4'']
           (win ''C:/v'')],
        Ffmpeg_called)"
proof -
  let ?e = "windows_env (Inl Decode_failure) None"
  have p: "mpd_full_path ?e ''file:///C:/v/a.mpd'' = win ''C:/v/a.mpd''"
    "mpd_dir ?e ''file:///C:/v/a.mpd'' = win ''C:/v''"
    "mpd_full_path ?e ''file:///C:/v/b.mpd'' = win ''C:/v/b.mpd''"
    "mpd_dir ?e ''file:///C:/v/b.mpd'' = win ''C:/v''"
    "ffmpeg_cmd ?e ''ffmpeg.exe'' ''file:///C:/v/a.mpd'' ''out.mp4'' =
       [''ffmpeg.exe'', ''-protocol_whitelist'', ''file,http,https,tcp,tls,crypto'',
        ''-allowed_extensions'', ''ALL'', ''-i'', ''a.mpd'', ''-c'', ''copy'', ''-y'',
        win ''C:/w/out.mp4'']"
    by code_simp+
  have 1: "is_local_file ''file:///C:/v/a.mpd''" by code_simp
  have 2: "is_local_file ''file:///C:/v/b.mpd''" by code_simp
  have 3: "''ffmpeg.exe'' \<noteq> []" by simp
  have 4: "\<not> path_exists ?e (win ''C:/v/b.mpd'')" by code_simp
  have 5: "path_exists ?e (win ''C:/v/a.mpd'')" by code_simp
  have 6: "read_text ?e (win ''C:/v/a.mpd'') = Inl Decode_failure" by code_simp
  show ?thesis
    using unreadable_manifest_goes_to_ffmpeg
        [OF 1 3, of ?e "''out.mp4''" "base_opts ''out.mp4''" Decode_failure]
      unreadable_manifest_goes_to_ffmpeg
        [OF 2 3, of ?e "''out.mp4''" "base_opts ''out.mp4''" Decode_failure]
      1 2 3 4 5 6
    unfolding p by blast
qed

section \<open>Properties: local file or URL\<close>

text \<open>
  Claim C2, as stated, does not hold: a file URI typed by the user names no file for
  \<open>os.path.isfile\<close>, so it is returned as it is, and the program then handles it as a
  local manifest, not as a remote URL.
\<close>

theorem file_uri_input_counterexample:
  "cleaned_input ''file:///C:/v/a.mpd'' = ''file:///C:/v/a.mpd'' \<and>
   \<not> isfile (windows_env (Inr ''<MPD/>'') (Some ''ffmpeg.exe'')) ''file:///C:/v/a.mpd'' \<and>
   validate_and_prepare_url (windows_env (Inr ''<MPD/>'') (Some ''ffmpeg.exe''))
       ''file:///C:/v/a.mpd'' = Inr ''file:///C:/v/a.mpd'' \<and>
   is_local_file ''file:///C:/v/a.mpd'' \<and>
   main (windows_env (Inr ''<MPD/>'') (Some ''ffmpeg.exe'')) ''file:///C:/v/a.mpd'' ''out'' =
     ([Listdir (win ''C:/v''), Exists (win ''C:/v/a.mpd''), Read_manifest (win ''C:/v/a.mpd''),
       Popen [''ffmpeg.exe'', ''-protocol_whitelist'', ''file,http,https,tcp,tls,crypto'',
              ''-allowed_extensions'', ''ALL'', ''-i'', ''a.mpd'', ''-c'', ''copy'', ''-y'',
              win ''C:/w/out.mp4'']
         (win ''C:/v'')],
      Ffmpeg_called)"
  by code_simp

text \<open>
  Claim C2, amended. Let \<open>c\<close> be the cleaned input, not empty. If \<open>c\<close> names a regular
  file, the result is the file URI of its absolute path, which starts with \<open>file://\<close> and
  so is handled as a local manifest. Otherwise the result is \<open>c\<close> itself; it goes to the
  downloader as it is unless it starts with \<open>file://\<close>, and then it takes the way of a
  local manifest.
\<close>

theorem resolve_local_or_verbatim:
  assumes "cleaned_input s \<noteq> []"
  shows "(isfile e (cleaned_input s) \<longrightarrow>
            (\<forall>q. uri_path e (abspath e (cleaned_input s)) = Some q \<longrightarrow>
               validate_and_prepare_url e s = Inr (''file://'' @ q) \<and>
               is_local_file (''file://'' @ q))) \<and>
         (\<not> isfile e (cleaned_input s) \<longrightarrow>
            validate_and_prepare_url e s = Inr (cleaned_input s) \<and>
            (\<not> startswith (cleaned_input s) ''file://'' \<longrightarrow>
               (\<forall>ffmpeg_path out opts.
                  start_download e ffmpeg_path (cleaned_input s) out opts =
                    ([Download [cleaned_input s] opts], Downloader_called))) \<and>
            (startswith (cleaned_input s) ''file://'' \<longrightarrow>
               (\<forall>p out opts.
                  start_download e (Some p) (cleaned_input s) out opts =
                    (if p = [] then ([], Ffmpeg_required)
                     else process_local_mpd e p (cleaned_input s) out opts))))"
proof -
  from assms have "s \<noteq> []"
    by (auto simp: text_defs)
  with assms show ?thesis
    by (auto simp: validate_and_prepare_url_def as_uri_def is_local_file_def startswith_def
        start_download_def)
qed

text \<open>A quoted path of the manifest, and a URL with blanks around it.\<close>

theorem resolve_local_or_verbatim_witness:
  \<open>cleaned_input ('' "'' @ win ''C:/v/a.mpd'' @ ''" '') = win ''C:/v/a.mpd'' \<and>
   cleaned_input ('' "'' @ win ''C:/v/a.mpd'' @ ''" '') \<noteq> [] \<and>
   isfile (windows_env (Inr ''<MPD/>'') None) (win ''C:/v/a.mpd'') \<and>
   uri_path (windows_env (Inr ''<MPD/>'') None)
     (abspath (windows_env (Inr ''<MPD/>'') None) (win ''C:/v/a.mpd'')) = Some ''/C:/v/a.mpd'' \<and>
   validate_and_prepare_url (windows_env (Inr ''<MPD/>'') None)
       ('' "'' @ win ''C:/v/a.mpd'' @ ''" '') = Inr ''file:///C:/v/a.mpd'' \<and>
   is_local_file ''file:///C:/v/a.mpd'' \<and>
   cleaned_input '' https://example.com/a.mpd '' = ''https://example.com/a.mpd'' \<and>
   \<not> isfile (windows_env (Inr ''<MPD/>'') None) ''https://example.com/a.mpd'' \<and>
   \<not> startswith ''https://example.com/a.mpd'' ''file://'' \<and>
   validate_and_prepare_url (windows_env (Inr ''<MPD/>'') None) '' https://example.com/a.mpd ''
     = Inr ''https://example.com/a.mpd'' \<and>
   start_download (windows_env (Inr ''<MPD/>'') None) None ''https://example.com/a.mpd''
       ''out.mp4'' (base_opts ''out.mp4'')
     = ([Download [''https://example.com/a.mpd''] (base_opts ''out.mp4'')], Downloader_called)\<close>
proof -
  let ?e = \<open>windows_env (Inr ''<MPD/>'') None\<close>
  let ?s = \<open>'' "'' @ win ''C:/v/a.mpd'' @ ''" ''\<close>
  let ?t = \<open>'' https://example.com/a.mpd ''\<close>
  have c: \<open>cleaned_input ?s = win ''C:/v/a.mpd''\<close>
    \<open>cleaned_input ?t = ''https://example.com/a.mpd''\<close>
    by code_simp+
  have n: \<open>cleaned_input ?s \<noteq> []\<close> \<open>cleaned_input ?t \<noteq> []\<close>
    by code_simp+
  have 1: \<open>isfile ?e (win ''C:/v/a.mpd'')\<close> by code_simp
  have 2: \<open>uri_path ?e (abspath ?e (win ''C:/v/a.mpd'')) = Some ''/C:/v/a.mpd''\<close> by code_simp
  have 3: \<open>\<not> isfile ?e ''https://example.com/a.mpd''\<close> by code_simp
  have 4: \<open>\<not> startswith ''https://example.com/a.mpd'' ''file://''\<close> by code_simp
  show ?thesis
    using resolve_local_or_verbatim [OF n(1), of ?e] resolve_local_or_verbatim [OF n(2), of ?e]
      1 2 3 4 n
    unfolding c by simp
qed

section \<open>Properties: the regular expressions\<close>

text \<open>The characters \<open><\<close>, \<open>>\<close> and the double quote have no letter case, so a negated class
  of one of them excludes that character only.\<close>

lemma lower_char_uncased:
  assumes "\<not> (65 \<le> (of_char x :: nat) \<and> (of_char x :: nat) \<le> 122)"
      and "(of_char x :: nat) < 192"
    shows "lower_char c = lower_char x \<longleftrightarrow> c = x"
proof -
  have "lower_char x = x"
    using assms by (auto simp: lower_char_def Let_def)
  moreover have "lower_char c = x \<longleftrightarrow> (of_char c :: nat) = of_char x"
    unfolding lower_char_eq_iff lower_char_of using assms by auto
  ultimately show ?thesis by (simp only: of_char_eq_iff)
qed

lemma atom_ok_Not_lt [simp]: "atom_ok (Not CHR ''<'') c \<longleftrightarrow> c \<noteq> CHR ''<''"
  by (simp add: lower_char_uncased)

lemma atom_ok_Not_gt [simp]: "atom_ok (Not CHR ''>'') c \<longleftrightarrow> c \<noteq> CHR ''>''"
  by (simp add: lower_char_uncased)

lemma atom_ok_Not_dq [simp]: "atom_ok (Not CHR 0x22) c \<longleftrightarrow> c \<noteq> CHR 0x22"
  by (simp add: lower_char_uncased)

lemma atom_ok_Lit_same [simp]: "atom_ok (Lit c) c"
  by simp

lemma re_match_lits:
  "re_match (lits l @ ps) (l @ s) (r, g) = re_match ps s (r, if r then g @ l else g)"
  by (induction l arbitrary: g) (simp_all add: lits_def)

lemma re_match_star_run:
  assumes "\<forall>c \<in> set run. atom_ok a c" and "s = [] \<or> \<not> atom_ok a (hd s)"
    and "re_match ps s (r, if r then g @ run else g) = Some v"
  shows "re_match (Star a # ps) (run @ s) (r, g) = Some v"
  using assms
proof (induction run arbitrary: g)
  case Nil
  then show ?case by (cases s; cases r) auto
next
  case (Cons c run)
  have "re_match (Star a # ps) (run @ s) (r, if r then g @ [c] else g) = Some v"
    using Cons.prems by (intro Cons.IH) auto
  with Cons.prems(1) show ?case by simp
qed

lemma re_match_plus_run:
  assumes "run \<noteq> []" and "\<forall>c \<in> set run. atom_ok a c" and "s = [] \<or> \<not> atom_ok a (hd s)"
    and "re_match ps s (r, if r then g @ run else g) = Some v"
  shows "re_match (Plus a # ps) (run @ s) (r, g) = Some v"
proof -
  from assms(1) obtain c run' where run: "run = c # run'"
    by (cases run) auto
  have "re_match (Star a # ps) (run' @ s) (r, if r then g @ [c] else g) = Some v"
    using assms run by (intro re_match_star_run) auto
  with assms(2) run show ?thesis by simp
qed

text \<open>The search returns the first match: if no match starts inside \<open>pre\<close> and one starts
  right after it, that one is returned.\<close>

lemma re_search_first_match:
  assumes "\<forall>k<length pre. \<not> matches_at p (pre @ s) k"
    and "re_match p s (False, []) = Some g"
  shows "re_search p (pre @ s) = Some g"
  using assms(1)
proof (induction pre)
  case Nil
  with assms(2) show ?case by (cases s) simp_all
next
  case (Cons c pre)
  from Cons.prems have "\<not> matches_at p ((c # pre) @ s) 0"
    by simp
  then have none: "re_match p (c # pre @ s) (False, []) = None"
    by (simp add: matches_at_def)
  have "\<forall>k<length pre. \<not> matches_at p (pre @ s) k"
  proof (intro allI impI)
    fix k assume "k < length pre"
    then have "\<not> matches_at p ((c # pre) @ s) (Suc k)"
      using Cons.prems by simp
    then show "\<not> matches_at p (pre @ s) k"
      by (simp add: matches_at_def)
  qed
  then have "re_search p (pre @ s) = Some g"
    by (rule Cons.IH)
  with none show ?case by simp
qed

lemma scheme_then_rest:
  assumes "scheme = ''http://'' \<or> scheme = ''https://''"
    and "re_match ps s (True, scheme) = Some v"
  shows "re_match (lits ''http'' @ [Opt (Lit CHR ''s'')] @ lits ''://'' @ ps) (scheme @ s) (True, [])
           = Some v"
proof -
  have colon: "\<not> atom_ok (Lit CHR ''s'') CHR '':''"
    by (simp add: lower_char_def)
  from assms(1) show ?thesis
  proof
    assume "scheme = ''http://''"
    with assms(2) colon show ?thesis
      using re_match_lits [of "''http''" "[Opt (Lit CHR ''s'')] @ lits ''://'' @ ps" "''://'' @ s" True "[]"]
        re_match_lits [of "''://''" ps s True "''http''"]
      by simp
  next
    assume "scheme = ''https://''"
    with assms(2) show ?thesis
      using re_match_lits [of "''http''" "[Opt (Lit CHR ''s'')] @ lits ''://'' @ ps" "''s://'' @ s" True "[]"]
        re_match_lits [of "''://''" ps s True "''https''"]
      by simp
  qed
qed

lemma base_url_element_matches:
  assumes "CHR ''>'' \<notin> set attrs"
    and "scheme = ''http://'' \<or> scheme = ''https://''"
    and "rest \<noteq> []" and "CHR ''<'' \<notin> set rest"
  shows "re_match base_url_pattern
           (''<BaseURL'' @ attrs @ ''>'' @ scheme @ rest @ ''</BaseURL>'' @ post) (False, [])
         = Some (scheme @ rest)"
proof -
  let ?close = "lits ''</BaseURL>''"
  let ?url = "[Plus (Not CHR ''<''), Group_close] @ ?close"
  let ?group = "lits ''http'' @ [Opt (Lit CHR ''s'')] @ lits ''://'' @ ?url"
  have 1: "re_match ?close (''</BaseURL>'' @ post) (False, scheme @ rest) = Some (scheme @ rest)"
    using re_match_lits [of "''</BaseURL>''" "[]" post False "scheme @ rest"] by simp
  have 2: "re_match ?url (rest @ ''</BaseURL>'' @ post) (True, scheme) = Some (scheme @ rest)"
    using assms(3,4) 1
    by (simp only: append_Cons append_Nil) (rule re_match_plus_run, auto simp del: atom_ok.simps)
  have 3: "re_match ?group (scheme @ rest @ ''</BaseURL>'' @ post) (True, []) = Some (scheme @ rest)"
    using assms(2) 2 by (rule scheme_then_rest)
  have 4: "re_match (lits ''>'' @ [Group_open] @ ?group)
             (''>'' @ scheme @ rest @ ''</BaseURL>'' @ post) (False, []) = Some (scheme @ rest)"
    using 3 re_match_lits [of "''>''" "[Group_open] @ ?group" _ False "[]"] by simp
  have 5: "re_match (Star (Not CHR ''>'') # lits ''>'' @ [Group_open] @ ?group)
             (attrs @ ''>'' @ scheme @ rest @ ''</BaseURL>'' @ post) (False, []) = Some (scheme @ rest)"
    using assms(1) 4 by (intro re_match_star_run) (auto simp del: atom_ok.simps)
  show ?thesis
    unfolding base_url_pattern_def
    using 5 re_match_lits [of "''<BaseURL''" "Star (Not CHR ''>'') # lits ''>'' @ [Group_open] @ ?group" _ False "[]"]
    by simp
qed

text \<open>A match starts with the literal text of the pattern, in some letter case. So no
  match of the \<open>BaseURL\<close> pattern starts before the first \<open><BaseURL\<close> of the text.\<close>

lemma re_match_lits_prefix:
  assumes "re_match (lits l @ ps) s st \<noteq> None"
  shows "prefix (lower l) (lower s)"
  using assms
proof (induction l arbitrary: s st)
  case Nil
  then show ?case by (simp add: lower_def)
next
  case (Cons c l)
  show ?case
  proof (cases s)
    case Nil
    with Cons.prems show ?thesis by (simp add: lits_def)
  next
    case (Cons x s')
    with Cons.prems have ok: "lower_char x = lower_char c"
      and rest: "re_match (lits l @ ps) s' (capture x st) \<noteq> None"
      by (auto simp: lits_def split: if_splits)
    from rest have "prefix (lower l) (lower s')"
      by (rule Cons.IH)
    with ok Cons show ?thesis
      by (simp add: lower_def)
  qed
qed

lemma lower_tag: "lower ''<BaseURL'' = ''<baseurl''"
  by code_simp

lemma lower_append: "lower (a @ b) = lower a @ lower b"
  by (simp add: lower_def)

lemma prefix_of_append_short:
  "prefix xs (ys @ zs) \<Longrightarrow> length xs \<le> length ys \<Longrightarrow> prefix xs ys"
  by (auto simp: prefix_append)

lemma no_match_before_first_tag:
  assumes "\<not> contains (lower pre) ''<baseurl''"
  shows "\<forall>k<length pre. \<not> matches_at base_url_pattern (pre @ ''<'' @ t) k"
proof (intro allI impI notI)
  fix k
  assume k: "k < length pre" and m: "matches_at base_url_pattern (pre @ ''<'' @ t) k"
  let ?d = "drop k pre"
  from k have d: "?d \<noteq> []" by simp
  have pat: "base_url_pattern = lits ''<BaseURL'' @ tl (drop 7 base_url_pattern)"
    by (simp add: base_url_pattern_def lits_def)
  from m k have "re_match base_url_pattern (?d @ ''<'' @ t) (False, []) \<noteq> None"
    by (simp add: matches_at_def)
  then have "re_match (lits ''<BaseURL'' @ tl (drop 7 base_url_pattern)) (?d @ ''<'' @ t) (False, [])
      \<noteq> None"
    using pat by simp
  then have "prefix (lower ''<BaseURL'') (lower (?d @ ''<'' @ t))"
    by (rule re_match_lits_prefix)
  then have p: "prefix ''<baseurl'' (lower ?d @ lower (''<'' @ t))"
    by (simp only: lower_tag lower_append)
  show False
  proof (cases "8 \<le> length ?d")
    case True
    then have "length ''<baseurl'' \<le> length (lower ?d)"
      by (simp add: lower_def)
    with p have "prefix ''<baseurl'' (lower ?d)"
      by (rule prefix_of_append_short)
    then have "sublist ''<baseurl'' (lower ?d)"
      by (rule prefix_imp_sublist)
    moreover have "lower pre = lower (take k pre) @ lower ?d"
      by (metis append_take_drop_id lower_def map_append)
    ultimately have "sublist ''<baseurl'' (lower pre)"
      by (simp add: sublist_append)
    with assms show False by (simp add: contains_def)
  next
    case False
    then have len: "length ?d < 8" by simp
    from p obtain zs where eq: "lower ?d @ lower (''<'' @ t) = ''<baseurl'' @ zs"
      by (auto simp: prefix_def)
    have "(lower ?d @ lower (''<'' @ t)) ! length ?d = lower_char CHR ''<''"
      by (simp add: nth_append lower_def)
    also have "lower_char CHR ''<'' = CHR ''<''"
      by (simp add: lower_char_def)
    finally have "(''<baseurl'' @ zs) ! length ?d = CHR ''<''"
      using eq by simp
    moreover from d have "0 < length ?d"
      by simp
    with len have "length ?d = 1 \<or> length ?d = 2 \<or> length ?d = 3 \<or> length ?d = 4 \<or>
        length ?d = 5 \<or> length ?d = 6 \<or> length ?d = 7"
      by arith
    ultimately show False
      by (auto simp: nth_append)
  qed
qed

lemma contains_scheme:
  assumes "scheme = ''http://'' \<or> scheme = ''https://''"
  shows "has_remote_urls (a @ scheme @ b)"
  using assms sublist_appendI [of "''http://''" a b] sublist_appendI [of "''https://''" a b]
  by (auto simp: has_remote_urls_def contains_def)

lemma all_below_upt: "\<forall>k \<in> set [0..<n]. P k \<Longrightarrow> \<forall>k<n. P k"
  by simp

lemma first_media_url_None:
  assumes "\<forall>p \<in> set patterns.
             (case re_search p mpd_content of None \<Rightarrow> True
              | Some g \<Rightarrow> contains (strip g) ''w3.org'')"
  shows "first_media_url patterns mpd_content = None"
  using assms by (induction patterns) (auto split: option.splits)

lemma first_media_url_Some:
  assumes "first_media_url patterns mpd_content = Some u"
  shows "\<exists>p \<in> set patterns. \<exists>g. re_search p mpd_content = Some g \<and> u = strip g \<and>
           \<not> contains u ''w3.org''"
  using assms by (induction patterns) (auto split: option.splits if_splits)

section \<open>Properties: the URL taken from a manifest\<close>

text \<open>
  Claim C3. Let a local manifest that was found and read contain a \<open>BaseURL\<close> element
  whose text is an \<open>http://\<close> or \<open>https://\<close> URL (the scheme followed by at least one
  character, none of them \<open><\<close>), and let it be the first match of the \<open>BaseURL\<close> pattern in
  the text (as it is when no \<open><BaseURL\<close> stands before it, by
  \<open>no_match_before_first_tag\<close>). Then that URL, stripped of whitespace, is the one handed
  to the downloader, whatever stands before and after the element: a \<open>media="..."\<close>
  attribute anywhere in the document is not looked at.
\<close>

theorem base_url_takes_precedence:
  assumes "is_local_file url" and "ffmpeg_path \<noteq> []"
    and "path_exists e (mpd_full_path e url)"
    and "read_text e (mpd_full_path e url) = Inr mpd_content"
    and "mpd_content =
           pre @ ''<BaseURL'' @ attrs @ ''>'' @ scheme @ rest @ ''</BaseURL>'' @ post"
    and "CHR ''>'' \<notin> set attrs"
    and "scheme = ''http://'' \<or> scheme = ''https://''"
    and "rest \<noteq> []" and "CHR ''<'' \<notin> set rest"
    and "\<forall>k<length pre. \<not> matches_at base_url_pattern mpd_content k"
  shows "remote_url mpd_content = Some (strip (scheme @ rest)) \<and>
         start_download e (Some ffmpeg_path) url out opts =
           ([Listdir (mpd_dir e url),
             Exists (mpd_full_path e url),
             Read_manifest (mpd_full_path e url),
             Download [strip (scheme @ rest)] opts],
            Downloader_called)"
proof -
  let ?element = "''<BaseURL'' @ attrs @ ''>'' @ scheme @ rest @ ''</BaseURL>'' @ post"
  have "re_match base_url_pattern ?element (False, []) = Some (scheme @ rest)"
    using assms(6-9) by (rule base_url_element_matches)
  with assms(10) have "re_search base_url_pattern mpd_content = Some (scheme @ rest)"
    unfolding assms(5) by (rule re_search_first_match)
  then have url: "remote_url mpd_content = Some (strip (scheme @ rest))"
    by (simp add: remote_url_def)
  have "has_remote_urls ((pre @ ''<BaseURL'' @ attrs @ ''>'') @ scheme @ (rest @ ''</BaseURL>'' @ post))"
    using assms(7) by (rule contains_scheme)
  then have "has_remote_urls mpd_content"
    by (simp add: assms(5))
  with url assms(1-4) show ?thesis
    by (simp add: start_download_def process_local_mpd_def)
qed

text \<open>A manifest with a usable \<open>media\<close> attribute before its \<open>BaseURL\<close> element.\<close>

theorem base_url_takes_precedence_witness:
  \<open>is_local_file ''file:///C:/v/a.mpd'' \<and> ''ffmpeg.exe'' \<noteq> [] \<and>
   path_exists (windows_env (Inr ''<MPD><S media="https://cdn.example.org/seg1.ts"/><BaseURL>https://example.com/x</BaseURL></MPD>'') None) (win ''C:/v/a.mpd'') \<and>
   read_text (windows_env (Inr ''<MPD><S media="https://cdn.example.org/seg1.ts"/><BaseURL>https://example.com/x</BaseURL></MPD>'') None) (win ''C:/v/a.mpd'')
     = Inr (''<MPD><S media="https://cdn.example.org/seg1.ts"/>'' @ ''<BaseURL'' @ [] @ ''>'' @
            ''https://'' @ ''example.com/x'' @ ''</BaseURL>'' @ ''</MPD>'') \<and>
   CHR ''>'' \<notin> set [] \<and> ''example.com/x'' \<noteq> [] \<and> CHR ''<'' \<notin> set ''example.com/x'' \<and>
   list_all
     (\<lambda>k. \<not> matches_at base_url_pattern
          ''<MPD><S media="https://cdn.example.org/seg1.ts"/><BaseURL>https://example.com/x</BaseURL></MPD>'' k)
     [0..<length ''<MPD><S media="https://cdn.example.org/seg1.ts"/>''] \<and>
   start_download (windows_env (Inr ''<MPD><S media="https://cdn.example.org/seg1.ts"/><BaseURL>https://example.com/x</BaseURL></MPD>'') None)
       (Some ''ffmpeg.exe'') ''file:///C:/v/a.mpd'' ''out.mp4'' (base_opts ''out.mp4'')
     = ([Listdir (win ''C:/v''), Exists (win ''C:/v/a.mpd''), Read_manifest (win ''C:/v/a.mpd''),
         Download [''https://example.com/x''] (base_opts ''out.mp4'')],
        Downloader_called)\<close>
proof -
  let ?pre = \<open>''<MPD><S media="https://cdn.example.org/seg1.ts"/>''\<close>
  let ?m = \<open>''<MPD><S media="https://cdn.example.org/seg1.ts"/><BaseURL>https://example.com/x</BaseURL></MPD>''\<close>
  let ?e = "windows_env (Inr ?m) None"
  let ?u = "''file:///C:/v/a.mpd''"
  have p: "mpd_full_path ?e ?u = win ''C:/v/a.mpd''" "mpd_dir ?e ?u = win ''C:/v''"
    by code_simp+
  have s: "strip (''https://'' @ ''example.com/x'') = ''https://example.com/x''"
    by code_simp
  have 1: "is_local_file ?u" by code_simp
  have 2: "''ffmpeg.exe'' \<noteq> []" by simp
  have 3: "path_exists ?e (win ''C:/v/a.mpd'')" by code_simp
  have 4: "read_text ?e (win ''C:/v/a.mpd'') = Inr ?m" by code_simp
  have 5: "?m = ?pre @ ''<BaseURL'' @ [] @ ''>'' @ ''https://'' @ ''example.com/x'' @
             ''</BaseURL>'' @ ''</MPD>''"
    by simp
  have 6: "CHR ''>'' \<notin> set []" by simp
  have 7: "''https://'' = ''http://'' \<or> ''https://'' = ''https://''" by simp
  have 8: "''example.com/x'' \<noteq> []" by simp
  have 9: "CHR ''<'' \<notin> set ''example.com/x''" by simp
  have first: "list_all (\<lambda>k. \<not> matches_at base_url_pattern ?m k) [0..<length ?pre]"
    by code_simp
  then have "\<forall>k \<in> set [0..<length ?pre]. \<not> matches_at base_url_pattern ?m k"
    unfolding list_all_iff .
  then have 10: "\<forall>k<length ?pre. \<not> matches_at base_url_pattern ?m k"
    by (rule all_below_upt)
  have "start_download ?e (Some ''ffmpeg.exe'') ?u ''out.mp4'' (base_opts ''out.mp4'')
     = ([Listdir (win ''C:/v''), Exists (win ''C:/v/a.mpd''), Read_manifest (win ''C:/v/a.mpd''),
         Download [''https://example.com/x''] (base_opts ''out.mp4'')],
        Downloader_called)"
    using base_url_takes_precedence
      [of ?u "''ffmpeg.exe''" ?e ?m ?pre "[]" "''https://''" "''example.com/x''" "''</MPD>''",
       OF 1 2 3 [unfolded p [symmetric]] 4 [unfolded p [symmetric]] 5 6 7 8 9 10]
    unfolding p s by simp
  with 1 2 3 4 6 8 9 first show ?thesis
    by simp
qed

text \<open>
  Claim C4. Let a local manifest that was found and read contain \<open>http://\<close> or
  \<open>https://\<close>. If the \<open>BaseURL\<close> pattern has no match, and the first match of each of the
  four patterns for \<open>media\<close>, \<open>initialization\<close>, \<open>sourceURL\<close> and \<open>SegmentURL\<close> is absent
  or contains \<open>w3.org\<close>, then no URL is extracted and the run ends after reading the
  manifest: neither the downloader nor ffmpeg is started.
\<close>

theorem no_usable_url_ends_run:
  assumes "is_local_file url" and "ffmpeg_path \<noteq> []"
    and "path_exists e (mpd_full_path e url)"
    and "read_text e (mpd_full_path e url) = Inr mpd_content"
    and "contains mpd_content ''http://'' \<or> contains mpd_content ''https://''"
    and "re_search base_url_pattern mpd_content = None"
    and "\<forall>p \<in> set media_patterns.
           (case re_search p mpd_content of None \<Rightarrow> True
            | Some g \<Rightarrow> contains (strip g) ''w3.org'')"
  shows "remote_url mpd_content = None \<and>
         start_download e (Some ffmpeg_path) url out opts =
           ([Listdir (mpd_dir e url),
             Exists (mpd_full_path e url),
             Read_manifest (mpd_full_path e url)],
            No_media_url)"
proof -
  have "first_media_url media_patterns mpd_content = None"
    using assms(7) by (rule first_media_url_None)
  with assms(6) have "remote_url mpd_content = None"
    by (simp add: remote_url_def)
  with assms(1-5) show ?thesis
    by (simp add: start_download_def process_local_mpd_def has_remote_urls_def)
qed

text \<open>A manifest whose only URLs are a namespace and a \<open>media\<close> attribute on \<open>w3.org\<close>.\<close>

theorem no_usable_url_ends_run_witness:
  \<open>is_local_file ''file:///C:/v/a.mpd'' \<and> ''ffmpeg.exe'' \<noteq> [] \<and>
   path_exists (windows_env (Inr ''<MPD xmlns="http://www.w3.org/ns/example" media="http://www.w3.org/a"/>'') None) (win ''C:/v/a.mpd'') \<and>
   read_text (windows_env (Inr ''<MPD xmlns="http://www.w3.org/ns/example" media="http://www.w3.org/a"/>'') None) (win ''C:/v/a.mpd'')
     = Inr ''<MPD xmlns="http://www.w3.org/ns/example" media="http://www.w3.org/a"/>'' \<and>
   contains ''<MPD xmlns="http://www.w3.org/ns/example" media="http://www.w3.org/a"/>'' ''http://'' \<and>
   re_search base_url_pattern
     ''<MPD xmlns="http://www.w3.org/ns/example" media="http://www.w3.org/a"/>'' = None \<and>
   re_search (attribute_pattern ''media'')
     ''<MPD xmlns="http://www.w3.org/ns/example" media="http://www.w3.org/a"/>''
     = Some ''http://www.w3.org/a'' \<and>
   list_all
     (\<lambda>p. case re_search p ''<MPD xmlns="http://www.w3.org/ns/example" media="http://www.w3.org/a"/>'' of
            None \<Rightarrow> True | Some g \<Rightarrow> contains (strip g) ''w3.org'')
     media_patterns \<and>
   start_download (windows_env (Inr ''<MPD xmlns="http://www.w3.org/ns/example" media="http://www.w3.org/a"/>'') None)
       (Some ''ffmpeg.exe'') ''file:///C:/v/a.mpd'' ''out.mp4'' (base_opts ''out.mp4'')
     = ([Listdir (win ''C:/v''), Exists (win ''C:/v/a.mpd''), Read_manifest (win ''C:/v/a.mpd'')],
        No_media_url)\<close>
proof -
  let ?m = \<open>''<MPD xmlns="http://www.w3.org/ns/example" media="http://www.w3.org/a"/>''\<close>
  let ?e = "windows_env (Inr ?m) None"
  let ?u = "''file:///C:/v/a.mpd''"
  have p: "mpd_full_path ?e ?u = win ''C:/v/a.mpd''" "mpd_dir ?e ?u = win ''C:/v''"
    by code_simp+
  have 1: "is_local_file ?u" by code_simp
  have 2: "''ffmpeg.exe'' \<noteq> []" by simp
  have 3: "path_exists ?e (win ''C:/v/a.mpd'')" by code_simp
  have 4: "read_text ?e (win ''C:/v/a.mpd'') = Inr ?m" by code_simp
  have 5: "contains ?m ''http://''" by code_simp
  have 6: "re_search base_url_pattern ?m = None" by code_simp
  have all: "list_all
      (\<lambda>p. case re_search p ?m of None \<Rightarrow> True | Some g \<Rightarrow> contains (strip g) ''w3.org'')
      media_patterns"
    by code_simp
  then have 7: "\<forall>p \<in> set media_patterns.
      (case re_search p ?m of None \<Rightarrow> True | Some g \<Rightarrow> contains (strip g) ''w3.org'')"
    unfolding list_all_iff .
  have 8: "re_search (attribute_pattern ''media'') ?m = Some ''http://www.w3.org/a''"
    by code_simp
  have "start_download ?e (Some ''ffmpeg.exe'') ?u ''out.mp4'' (base_opts ''out.mp4'')
     = ([Listdir (win ''C:/v''), Exists (win ''C:/v/a.mpd''), Read_manifest (win ''C:/v/a.mpd'')],
        No_media_url)"
    using no_usable_url_ends_run
      [of ?u "''ffmpeg.exe''" ?e ?m,
       OF 1 2 3 [unfolded p [symmetric]] 4 [unfolded p [symmetric]] disjI1 [OF 5] 6 7]
    unfolding p by simp
  with 1 2 3 4 5 6 all 8 show ?thesis
    by (intro conjI)
qed

text \<open>
  Claim C10. Of each pattern only the first match in the text is examined. If it
  contains \<open>w3.org\<close>, the pattern is given up and the loop goes on with the patterns that
  follow. For the \<open>media\<close> pattern this means: when its first match is a \<open>w3.org\<close> URL,
  the loop returns what the other three patterns give, so a later \<open>media\<close> attribute is
  never the source of the URL, however usable it is.
\<close>

theorem only_first_match_is_examined:
  assumes "re_search pattern mpd_content = Some g"
    and "contains (strip g) ''w3.org''"
  shows "first_media_url (pattern # patterns) mpd_content =
           first_media_url patterns mpd_content \<and>
         (pattern = attribute_pattern ''media'' \<longrightarrow>
            first_media_url media_patterns mpd_content =
              first_media_url
                [attribute_pattern ''initialization'', attribute_pattern ''sourceURL'',
                 segment_url_pattern] mpd_content \<and>
            (\<forall>u. first_media_url media_patterns mpd_content = Some u \<longrightarrow>
               (\<exists>p \<in> set [attribute_pattern ''initialization'', attribute_pattern ''sourceURL'',
                            segment_url_pattern].
                  \<exists>g'. re_search p mpd_content = Some g' \<and> u = strip g')))"
proof -
  let ?others = "[attribute_pattern ''initialization'', attribute_pattern ''sourceURL'',
                  segment_url_pattern]"
  have step: "first_media_url (pattern # ps) mpd_content = first_media_url ps mpd_content" for ps
    using assms by simp
  have others: "\<exists>p \<in> set ?others. \<exists>g'. re_search p mpd_content = Some g' \<and> u = strip g'"
    if "first_media_url ?others mpd_content = Some u" for u
    using first_media_url_Some [OF that] by blast
  have media: "first_media_url media_patterns mpd_content = first_media_url ?others mpd_content"
    if "pattern = attribute_pattern ''media''"
    using step [of ?others] that unfolding media_patterns_def by (simp only:)
  show ?thesis
  proof (intro conjI impI allI)
    show "first_media_url (pattern # patterns) mpd_content = first_media_url patterns mpd_content"
      by (rule step)
  next
    assume "pattern = attribute_pattern ''media''"
    then show "first_media_url media_patterns mpd_content = first_media_url ?others mpd_content"
      by (rule media)
  next
    fix u
    assume "pattern = attribute_pattern ''media''"
      and "first_media_url media_patterns mpd_content = Some u"
    then have "first_media_url ?others mpd_content = Some u"
      using media by simp
    then show "\<exists>p \<in> set ?others. \<exists>g'. re_search p mpd_content = Some g' \<and> u = strip g'"
      by (rule others)
  qed
qed

text \<open>A manifest whose first \<open>media\<close> attribute is on \<open>w3.org\<close> and whose second one is
  usable: alone the second would be found, here nothing is.\<close>

theorem only_first_match_is_examined_witness:
  \<open>re_search (attribute_pattern ''media'')
     ''<S media="http://www.w3.org/a"/><S media="https://cdn.example.org/seg1.ts"/>''
     = Some ''http://www.w3.org/a'' \<and>
   contains (strip ''http://www.w3.org/a'') ''w3.org'' \<and>
   re_search (attribute_pattern ''media'') ''<S media="https://cdn.example.org/seg1.ts"/>''
     = Some ''https://cdn.example.org/seg1.ts'' \<and>
   first_media_url media_patterns
     ''<S media="http://www.w3.org/a"/><S media="https://cdn.example.org/seg1.ts"/>'' = None \<and>
   remote_url ''<S media="http://www.w3.org/a"/><S media="https://cdn.example.org/seg1.ts"/>''
     = None\<close>
proof -
  let ?m = \<open>''<S media="http://www.w3.org/a"/><S media="https://cdn.example.org/seg1.ts"/>''\<close>
  have 1: "re_search (attribute_pattern ''media'') ?m = Some ''http://www.w3.org/a''"
    by code_simp
  have 2: "contains (strip ''http://www.w3.org/a'') ''w3.org''"
    by code_simp
  have 3: \<open>re_search (attribute_pattern ''media'') ''<S media="https://cdn.example.org/seg1.ts"/>''
     = Some ''https://cdn.example.org/seg1.ts''\<close>
    by code_simp
  have 4: "first_media_url [attribute_pattern ''initialization'', attribute_pattern ''sourceURL'',
              segment_url_pattern] ?m = None"
    by code_simp
  have 5: "re_search base_url_pattern ?m = None"
    by code_simp
  have 6: "first_media_url media_patterns ?m = None"
    using only_first_match_is_examined [OF 1 2] 4 by simp
  then have 7: "remote_url ?m = None"
    using 5 by (simp add: remote_url_def)
  from 1 2 3 6 7 show ?thesis
    by (intro conjI)
qed

end
